theory Spec2Isabelle
  imports Complex_Main
begin

section \<open>Voice-activity segments: chunk packing, binarisation, interval merging\<close>

text \<open>
  A shallow embedding of \<^verbatim>\<open>whisperx/vad.py\<close>. A Python float is a \<^typ>\<open>real\<close>, and every
  subtraction and addition of the source rounds its exact result as binary64 arithmetic
  does; comparisons are exact. \<^verbatim>\<open>float('inf')\<close>, the default of \<^verbatim>\<open>max_duration\<close>, is a
  value of its own. Every \<^verbatim>\<open>assert\<close>, \<^verbatim>\<open>raise\<close> and failing operation of the source is an
  \<open>Inl\<close> result.
\<close>

datatype error =
  AssertionError | IndexError | NameError | ValueError | NotImplementedError
  | TypeError | AttributeError

subsection \<open>Float arithmetic\<close>

text \<open>
  Rounding to the nearest integer, a tie going to the even one.
\<close>

definition round_even :: "real \<Rightarrow> int" where
  "round_even r =
     (let f = \<lfloor>r\<rfloor>; d = r - of_int f
      in if d < 1/2 then f else if 1/2 < d then f + 1 else if even f then f else f + 1)"

text \<open>
  Rounding to the nearest binary64 value, ties to even: the value is scaled so that its
  leading bit has the weight \<open>2 ^ 52\<close>, rounded to an integer of 53 bits and scaled back.
  The range of the exponent is not bounded: no result overflows, and a difference of two
  binary64 values near zero is exact here as it is in binary64.
\<close>

definition fl :: "real \<Rightarrow> real" where
  "fl x =
     (if x = 0 then 0
      else (let e = \<lfloor>log 2 \<bar>x\<bar>\<rfloor>
            in of_int (round_even (x * 2 powr of_int (52 - e))) * 2 powr of_int (e - 52)))"

definition float_sub :: "real \<Rightarrow> real \<Rightarrow> real" where
  "float_sub x y = fl (x - y)"

definition float_add :: "real \<Rightarrow> real \<Rightarrow> real" where
  "float_add x y = fl (x + y)"

subsection \<open>ChunkPacker: \<^verbatim>\<open>VADSegmentPipeline.merge_chunks\<close>\<close>

text \<open>The input segments: objects with the attributes \<^verbatim>\<open>start\<close>, \<^verbatim>\<open>end\<close> and \<^verbatim>\<open>speaker\<close>.\<close>

record 'l SegmentX =
  seg_start :: real
  seg_end :: real
  speaker :: 'l

text \<open>
  A chunk is the dict literal the source appends to \<^verbatim>\<open>merged_segments\<close>: its keys in the
  order they are written, each with its value.
\<close>

datatype pyval = Float real | SegList "(real \<times> real) list"

type_synonym chunk = "(string \<times> pyval) list"

definition chunk_dict :: "real \<Rightarrow> real \<Rightarrow> (real \<times> real) list \<Rightarrow> chunk" where
  "chunk_dict cs ce idxs = [(''start'', Float cs), (''end'', Float ce), (''segments'', SegList idxs)]"

definition chunk_segments :: "chunk \<Rightarrow> (real \<times> real) list" where
  "chunk_segments c = (case map_of c ''segments'' of Some (SegList l) \<Rightarrow> l | _ \<Rightarrow> [])"

text \<open>The local variables of \<^verbatim>\<open>merge_chunks\<close> that the loop updates.\<close>

record 'l chunk_state =
  curr_start :: real
  curr_end :: real
  merged_segments :: "chunk list"
  seg_idxs :: "(real \<times> real) list"
  speaker_idxs :: "'l list"

text \<open>
  One pass of the loop body; the two differences of the guard at line 104 are float
  subtractions. An emitted dict keeps the list object \<^verbatim>\<open>seg_idxs\<close> was bound to; the
  source then rebinds \<^verbatim>\<open>seg_idxs\<close> to a fresh list, so later appends do not reach the
  emitted chunk.
\<close>

definition merge_step :: "real \<Rightarrow> 'l chunk_state \<Rightarrow> 'l SegmentX \<Rightarrow> 'l chunk_state" where
  "merge_step chunk_size s seg =
     (let s1 = (if float_sub (seg_end seg) (curr_start s) > chunk_size
                   \<and> float_sub (curr_end s) (curr_start s) > 0
                then s\<lparr>merged_segments :=
                         merged_segments s @ [chunk_dict (curr_start s) (curr_end s) (seg_idxs s)],
                       curr_start := seg_start seg,
                       seg_idxs := [],
                       speaker_idxs := []\<rparr>
                else s)
      in s1\<lparr>curr_end := seg_end seg,
            seg_idxs := seg_idxs s1 @ [(seg_start seg, seg_end seg)],
            speaker_idxs := speaker_idxs s1 @ [speaker seg]\<rparr>)"

fun merge_loop :: "real \<Rightarrow> 'l chunk_state \<Rightarrow> 'l SegmentX list \<Rightarrow> 'l chunk_state" where
  "merge_loop chunk_size s [] = s"
| "merge_loop chunk_size s (seg # segs) = merge_loop chunk_size (merge_step chunk_size s seg) segs"

definition merge_chunks :: "'l SegmentX list \<Rightarrow> real \<Rightarrow> error + chunk list" where
  "merge_chunks segments_list chunk_size =
     (if \<not> chunk_size > 0 then Inl AssertionError
      else case segments_list of
        [] \<Rightarrow> Inl AssertionError
      | seg0 # _ \<Rightarrow>
          (let s = merge_loop chunk_size
                     \<lparr>curr_start = seg_start seg0, curr_end = 0, merged_segments = [],
                      seg_idxs = [], speaker_idxs = []\<rparr>
                     segments_list
           in Inr (merged_segments s @ [chunk_dict (curr_start s) (curr_end s) (seg_idxs s)])))"

subsection \<open>Regions and the annotation\<close>

text \<open>
  Line 3 imports \<^verbatim>\<open>Segment\<close> from \<^verbatim>\<open>pyannote.core\<close>, and line 8 binds the name again,
  to the class \<^verbatim>\<open>Segment\<close> of \<^verbatim>\<open>whisperx.diarize\<close>. Every region that \<^verbatim>\<open>Binarize.__call__\<close>
  and \<^verbatim>\<open>merge_vad\<close> build (lines 214, 221, 238, 261) is therefore an object of that
  class: the one that lines 52 and 70 build with a speaker and whose attributes
  \<^verbatim>\<open>start\<close>, \<^verbatim>\<open>end\<close> and \<^verbatim>\<open>speaker\<close> lines 101 to 115 read.
\<close>

text \<open>
  Modelled from the spec: the \<^verbatim>\<open>Segment\<close> of \<^verbatim>\<open>whisperx.diarize\<close>, which is not part of
  the source. It is a record of a start, an end and a label and nothing else: it has no
  order, no duration and no check of start against end. A region is built without a
  label, so it is the pair of its start and its end.
\<close>

type_synonym segment = "real \<times> real"

text \<open>
  The \<^verbatim>\<open>Annotation\<close> of \<^verbatim>\<open>pyannote.core\<close>: its entries, a segment with a track and a label
  each.
\<close>

type_synonym 'l annotation = "(segment \<times> nat \<times> 'l) list"

text \<open>
  The assignment \<^verbatim>\<open>active[region, k] = label\<close>. The annotation keeps its segments as the
  keys of a sorted container. A first key is put in as it is, whatever its start and its
  end; a further key has to be compared with the keys that are there, and two regions
  do not compare: the assignment raises \<^verbatim>\<open>TypeError\<close>.
\<close>

definition annotation_set ::
  "'l annotation \<Rightarrow> segment \<Rightarrow> nat \<Rightarrow> 'l \<Rightarrow> error + 'l annotation" where
  "annotation_set a seg trk lbl = (if a = [] then Inr [(seg, trk, lbl)] else Inl TypeError)"

text \<open>
  \<^verbatim>\<open>active.support(collar)\<close>. The support of an annotation with no entry is an
  annotation with no entry. With an entry, the timeline of a label is built from the
  bounds of its segments, which a region does not yield: the call raises \<^verbatim>\<open>TypeError\<close>.
\<close>

definition support :: "real \<Rightarrow> 'l annotation \<Rightarrow> error + 'l annotation" where
  "support collar a = (if a = [] then Inr [] else Inl TypeError)"

text \<open>
  The last step of \<^verbatim>\<open>Binarize.__call__\<close>: when \<^verbatim>\<open>min_duration_on > 0\<close>, the loop over the
  entries reads \<^verbatim>\<open>segment.duration\<close>, an attribute that a region does not have.
\<close>

definition drop_short :: "real \<Rightarrow> 'l annotation \<Rightarrow> error + 'l annotation" where
  "drop_short min_on a = (if min_on > 0 \<and> a \<noteq> [] then Inl AttributeError else Inr a)"

subsection \<open>ScoreBinarizer: \<^verbatim>\<open>Binarize\<close>\<close>

text \<open>\<^verbatim>\<open>max_duration\<close> is a float or \<^verbatim>\<open>float('inf')\<close>, its default.\<close>

datatype maxdur = Finite real | Infinity

fun exceeds :: "real \<Rightarrow> maxdur \<Rightarrow> bool" where
  "exceeds d (Finite m) = (d > m)"
| "exceeds d Infinity = False"

record Binarize =
  onset :: real
  offset :: real
  pad_onset :: real
  pad_offset :: real
  min_duration_on :: real
  min_duration_off :: real
  max_duration :: maxdur

text \<open>
  \<^verbatim>\<open>Binarize.__init__\<close>. The argument \<^verbatim>\<open>offset\<close> is optional (\<open>None\<close> when left out);
  \<^verbatim>\<open>self.offset = offset or onset\<close> takes \<^verbatim>\<open>onset\<close> whenever \<^verbatim>\<open>offset\<close> is falsy, which
  \<^verbatim>\<open>None\<close> and \<^verbatim>\<open>0.0\<close> both are.
\<close>

definition Binarize_init ::
  "real \<Rightarrow> real option \<Rightarrow> real \<Rightarrow> real \<Rightarrow> real \<Rightarrow> real \<Rightarrow> maxdur \<Rightarrow> Binarize" where
  "Binarize_init onset' offset' min_duration_on' min_duration_off' pad_onset' pad_offset'
       max_duration' =
     \<lparr>onset = onset',
      offset = (case offset' of None \<Rightarrow> onset' | Some v \<Rightarrow> if v = 0 then onset' else v),
      pad_onset = pad_onset',
      pad_offset = pad_offset',
      min_duration_on = min_duration_on',
      min_duration_off = min_duration_off',
      max_duration = max_duration'\<rparr>"

text \<open>
  The score grid: \<open>timestamps\<close> are the middles of the frames of the sliding window, one
  per frame; \<open>data_T\<close> is \<^verbatim>\<open>scores.data.T\<close>, one row of scores per class; \<open>labels\<close> is
  \<^verbatim>\<open>scores.labels\<close>.
\<close>

datatype label = Index nat | Name string

record SlidingWindowFeature =
  timestamps :: "real list"
  data_T :: "real list list"
  labels :: "label list option"

text \<open>\<^verbatim>\<open>numpy.argmin\<close> of a list: the first index of the least element; an empty list raises.\<close>

fun first_min_index :: "real list \<Rightarrow> nat" where
  "first_min_index [] = 0"
| "first_min_index [x] = 0"
| "first_min_index (x # y # ys) =
     (let j = first_min_index (y # ys) in if x \<le> (y # ys) ! j then 0 else Suc j)"

definition np_argmin :: "real list \<Rightarrow> error + nat" where
  "np_argmin xs = (if xs = [] then Inl ValueError else Inr (first_min_index xs))"

definition py_index :: "'a list \<Rightarrow> nat \<Rightarrow> error + 'a" where
  "py_index xs i = (if i < length xs then Inr (xs ! i) else Inl IndexError)"

text \<open>
  The variables of \<^verbatim>\<open>__call__\<close> that the loop over the frames reads and writes:
  the annotation \<^verbatim>\<open>active\<close>, the loop variable \<^verbatim>\<open>t\<close> (unbound, \<open>None\<close>, until a first pass
  of the loop binds it; it is read after the loop), and the state of the track.
\<close>

record track_state =
  active :: "label annotation"
  t_var :: "real option"
  start :: real
  is_active :: bool
  curr_scores :: "real list"
  curr_timestamps :: "real list"

definition append_frame :: "real \<Rightarrow> real \<Rightarrow> track_state \<Rightarrow> track_state" where
  "append_frame t y s =
     s\<lparr>curr_scores := curr_scores s @ [y], curr_timestamps := curr_timestamps s @ [t]\<rparr>"

text \<open>Lines 210 to 218: the split of a run that has grown longer than \<^verbatim>\<open>max_duration\<close>.\<close>

definition divide_segment :: "Binarize \<Rightarrow> nat \<Rightarrow> label \<Rightarrow> track_state \<Rightarrow> error + track_state" where
  "divide_segment b k lbl s =
     (let search_after = length (curr_scores s) div 2 in
      case np_argmin (drop search_after (curr_scores s)) of
        Inl e \<Rightarrow> Inl e
      | Inr a \<Rightarrow>
          (let min_score_div_idx = search_after + a in
           case py_index (curr_timestamps s) min_score_div_idx of
             Inl e \<Rightarrow> Inl e
           | Inr min_score_t \<Rightarrow>
               (case annotation_set (active s)
                       (float_sub (start s) (pad_onset b), float_add min_score_t (pad_offset b))
                       k lbl of
                  Inl e \<Rightarrow> Inl e
                | Inr a' \<Rightarrow>
                    Inr (s\<lparr>active := a',
                           start := min_score_t,
                           curr_scores := drop (min_score_div_idx + 1) (curr_scores s),
                           curr_timestamps :=
                             drop (min_score_div_idx + 1) (curr_timestamps s)\<rparr>))))"

definition track_step ::
  "Binarize \<Rightarrow> nat \<Rightarrow> label \<Rightarrow> track_state \<Rightarrow> real \<times> real \<Rightarrow> error + track_state" where
  "track_step b k lbl s0 ty =
     (let t = fst ty; y = snd ty; s = s0\<lparr>t_var := Some t\<rparr> in
      if is_active s then
        (let curr_duration = float_sub t (start s) in
         if exceeds curr_duration (max_duration b) then
           (case divide_segment b k lbl s of
              Inl e \<Rightarrow> Inl e
            | Inr s' \<Rightarrow> Inr (append_frame t y s'))
         else if y < offset b then
           (case annotation_set (active s)
                   (float_sub (start s) (pad_onset b), float_add t (pad_offset b)) k lbl of
              Inl e \<Rightarrow> Inl e
            | Inr a' \<Rightarrow>
                Inr (append_frame t y
                       (s\<lparr>active := a',
                          start := t,
                          is_active := False,
                          curr_scores := [],
                          curr_timestamps := []\<rparr>)))
         else Inr (append_frame t y s))
      else if y > onset b then Inr (append_frame t y (s\<lparr>start := t, is_active := True\<rparr>))
      else Inr (append_frame t y s))"

fun track_loop ::
  "Binarize \<Rightarrow> nat \<Rightarrow> label \<Rightarrow> track_state \<Rightarrow> (real \<times> real) list \<Rightarrow> error + track_state" where
  "track_loop b k lbl s [] = Inr s"
| "track_loop b k lbl s (ty # tys) =
     (case track_step b k lbl s ty of
        Inl e \<Rightarrow> Inl e
      | Inr s' \<Rightarrow> track_loop b k lbl s' tys)"

definition track_init ::
  "Binarize \<Rightarrow> label annotation \<Rightarrow> real option \<Rightarrow> real \<Rightarrow> real \<Rightarrow> track_state" where
  "track_init b a tv t0 y0 =
     \<lparr>active = a, t_var = tv, start = t0, is_active = (y0 > onset b),
      curr_scores = [y0], curr_timestamps = [t0]\<rparr>"

text \<open>
  The body of the loop over the classes, for class \<open>k\<close> with its scores: the label, the
  initial state, the loop over the frames after the first, and the final region when the
  track is still active. It takes and returns the annotation and the binding of \<^verbatim>\<open>t\<close>.
\<close>

definition binarize_track ::
  "Binarize \<Rightarrow> SlidingWindowFeature \<Rightarrow> nat \<Rightarrow> real list \<Rightarrow> label annotation \<times> real option
     \<Rightarrow> error + label annotation \<times> real option" where
  "binarize_track b scores k k_scores st =
     (case (case labels scores of None \<Rightarrow> Inr (Index k) | Some ls \<Rightarrow> py_index ls k) of
        Inl e \<Rightarrow> Inl e
      | Inr lbl \<Rightarrow>
     (case py_index (timestamps scores) 0 of
        Inl e \<Rightarrow> Inl e
      | Inr t0 \<Rightarrow>
     (case py_index k_scores 0 of
        Inl e \<Rightarrow> Inl e
      | Inr y0 \<Rightarrow>
     (case track_loop b k lbl (track_init b (fst st) (snd st) t0 y0)
             (zip (tl (timestamps scores)) (tl k_scores)) of
        Inl e \<Rightarrow> Inl e
      | Inr s \<Rightarrow>
          if is_active s then
            (case t_var s of
               None \<Rightarrow> Inl NameError
             | Some t \<Rightarrow>
                 (case annotation_set (active s)
                         (float_sub (start s) (pad_onset b), float_add t (pad_offset b)) k lbl of
                    Inl e \<Rightarrow> Inl e
                  | Inr a' \<Rightarrow> Inr (a', t_var s)))
          else Inr (active s, t_var s)))))"

fun tracks_loop ::
  "Binarize \<Rightarrow> SlidingWindowFeature \<Rightarrow> nat \<Rightarrow> real list list \<Rightarrow> label annotation \<times> real option
     \<Rightarrow> error + label annotation \<times> real option" where
  "tracks_loop b scores k [] st = Inr st"
| "tracks_loop b scores k (k_scores # cols) st =
     (case binarize_track b scores k k_scores st of
        Inl e \<Rightarrow> Inl e
      | Inr st' \<Rightarrow> tracks_loop b scores (Suc k) cols st')"

text \<open>The guard of the merge step, at line 243 and again at line 264.\<close>

definition merge_enabled :: "real \<Rightarrow> real \<Rightarrow> real \<Rightarrow> bool" where
  "merge_enabled p_offset p_onset min_off = (p_offset > 0 \<or> p_onset > 0 \<or> min_off > 0)"

definition binarize :: "Binarize \<Rightarrow> SlidingWindowFeature \<Rightarrow> error + label annotation" where
  "binarize b scores =
     (case tracks_loop b scores 0 (data_T scores) ([], None) of
        Inl e \<Rightarrow> Inl e
      | Inr st \<Rightarrow>
          (case (if merge_enabled (pad_offset b) (pad_onset b) (min_duration_off b) then
                   (if max_duration b \<noteq> Infinity then Inl NotImplementedError
                    else support (min_duration_off b) (fst st))
                 else Inr (fst st)) of
             Inl e \<Rightarrow> Inl e
           | Inr a \<Rightarrow> drop_short (min_duration_on b) a))"

subsection \<open>IntervalMerger: the loop of \<^verbatim>\<open>merge_vad\<close>\<close>

text \<open>
  Lines 259 to 262: interval \<open>k\<close> of \<^verbatim>\<open>vad_arr\<close> is padded and stored on track \<open>k\<close> with
  the label 1. An assignment that raises ends the call.
\<close>

fun vad_loop ::
  "real \<Rightarrow> real \<Rightarrow> nat \<Rightarrow> (real \<times> real) list \<Rightarrow> int annotation \<Rightarrow> error + int annotation" where
  "vad_loop p_onset p_offset k [] a = Inr a"
| "vad_loop p_onset p_offset k (vad_t # rest) a =
     (case annotation_set a (float_sub (fst vad_t) p_onset, float_add (snd vad_t) p_offset) k 1 of
        Inl e \<Rightarrow> Inl e
      | Inr a' \<Rightarrow> vad_loop p_onset p_offset (Suc k) rest a')"

subsection \<open>Invariants of the packing loop\<close>

text \<open>
  What every emitted chunk satisfies, and what the state of \<^verbatim>\<open>merge_chunks\<close> satisfies
  between two passes of its loop when the input is ordered by start and every segment
  has \<open>0 \<le> start < end\<close>. The differences are the float differences of the guard.
\<close>

definition chunk_ok :: "real \<Rightarrow> chunk \<Rightarrow> bool" where
  "chunk_ok cs c =
     (\<exists>a b l. c = chunk_dict a b l \<and> l \<noteq> [] \<and> (1 < length l \<longrightarrow> float_sub b a \<le> cs))"

definition pack_inv :: "real \<Rightarrow> 'l chunk_state \<Rightarrow> bool" where
  "pack_inv cs s =
     ((\<forall>c \<in> set (merged_segments s). chunk_ok cs c)
      \<and> (seg_idxs s = [] \<longrightarrow> \<not> float_sub (curr_end s) (curr_start s) > 0)
      \<and> (seg_idxs s \<noteq> [] \<longrightarrow> float_sub (curr_end s) (curr_start s) > 0)
      \<and> (1 < length (seg_idxs s) \<longrightarrow> float_sub (curr_end s) (curr_start s) \<le> cs))"

subsection \<open>Invariant of the loop over the frames\<close>

text \<open>
  Between two passes of the loop over the frames the buffer is not empty and its two
  lists have one length.
\<close>

definition buf_inv :: "track_state \<Rightarrow> bool" where
  "buf_inv s = (curr_scores s \<noteq> [] \<and> length (curr_timestamps s) = length (curr_scores s))"

section \<open>Properties\<close>

subsection \<open>Facts about the float arithmetic\<close>

lemma round_even_of_int: "round_even (of_int m) = m"
  by (simp add: round_even_def)

lemma round_even_ge: "of_int k \<le> r \<Longrightarrow> k \<le> round_even r"
proof -
  assume "of_int k \<le> r"
  then have "k \<le> \<lfloor>r\<rfloor>" by (simp add: le_floor_iff)
  then show ?thesis by (simp add: round_even_def Let_def)
qed

lemma round_even_le: "r \<le> of_int k \<Longrightarrow> round_even r \<le> k"
proof (cases "r = of_int k")
  case True
  then show ?thesis by (simp add: round_even_of_int)
next
  case False
  assume "r \<le> of_int k"
  then have "r < of_int k" using False by simp
  then have "\<lfloor>r\<rfloor> < k" by (simp add: floor_less_iff)
  then show ?thesis by (simp add: round_even_def Let_def)
qed

lemma scale_bounds:
  assumes "x \<noteq> 0"
  shows "1 \<le> \<bar>x\<bar> * 2 powr of_int (52 - \<lfloor>log 2 \<bar>x\<bar>\<rfloor>)"
proof -
  let ?e = "\<lfloor>log 2 \<bar>x\<bar>\<rfloor>"
  let ?S = "(2::real) powr of_int (52 - ?e)"
  have pos: "0 < \<bar>x\<bar>" using assms by simp
  have a: "2 powr of_int ?e \<le> \<bar>x\<bar>"
    using floor_log_eq_powr_iff [of "\<bar>x\<bar>" 2 ?e] pos by simp
  have "of_int ?e + of_int (52 - ?e) = (52::real)" by simp
  then have "2 powr of_int ?e * ?S = (2::real) powr 52"
    by (simp only: powr_add [symmetric])
  moreover have "(1::real) \<le> 2 powr 52" by simp
  ultimately have "1 \<le> 2 powr of_int ?e * ?S" by (simp only:)
  also have "\<dots> \<le> \<bar>x\<bar> * ?S"
    using a by (rule mult_right_mono) simp
  finally show ?thesis .
qed

lemma fl_unfold:
  "x \<noteq> 0 \<Longrightarrow>
   fl x = real_of_int (round_even (x * 2 powr of_int (52 - \<lfloor>log 2 \<bar>x\<bar>\<rfloor>)))
          * 2 powr of_int (\<lfloor>log 2 \<bar>x\<bar>\<rfloor> - 52)"
  by (simp only: fl_def Let_def if_False)

lemma fl_pos: assumes "0 < x" shows "0 < fl x"
proof -
  let ?e = "\<lfloor>log 2 \<bar>x\<bar>\<rfloor>"
  let ?r = "x * 2 powr of_int (52 - ?e)"
  have nz: "x \<noteq> 0" using assms by simp
  have ax: "\<bar>x\<bar> = x" using assms by simp
  have "1 \<le> ?r" using scale_bounds [OF nz] by (simp only: ax)
  then have "of_int 1 \<le> ?r" by simp
  then have "1 \<le> round_even ?r" by (rule round_even_ge)
  then have "0 < real_of_int (round_even ?r)" by simp
  moreover have "0 < (2::real) powr of_int (?e - 52)" by simp
  ultimately have "0 < real_of_int (round_even ?r) * 2 powr of_int (?e - 52)"
    by (rule mult_pos_pos)
  then show ?thesis by (simp only: fl_unfold [OF nz])
qed

lemma fl_neg: assumes "x < 0" shows "fl x < 0"
proof -
  let ?e = "\<lfloor>log 2 \<bar>x\<bar>\<rfloor>"
  let ?r = "x * 2 powr of_int (52 - ?e)"
  have nz: "x \<noteq> 0" using assms by simp
  have ax: "\<bar>x\<bar> = - x" using assms by simp
  have "1 \<le> (- x) * 2 powr of_int (52 - ?e)" using scale_bounds [OF nz] by (simp only: ax)
  then have "?r \<le> of_int (- 1)" by simp
  then have "round_even ?r \<le> - 1" by (rule round_even_le)
  then have "real_of_int (round_even ?r) < 0" by simp
  moreover have "0 < (2::real) powr of_int (?e - 52)" by simp
  ultimately have "real_of_int (round_even ?r) * 2 powr of_int (?e - 52) < 0"
    by (rule mult_neg_pos)
  then show ?thesis by (simp only: fl_unfold [OF nz])
qed

lemma fl_zero [simp]: "fl 0 = 0"
  by (simp add: fl_def)

lemma fl_pos_iff: "0 < fl x \<longleftrightarrow> 0 < x"
proof (cases "0 < x")
  case True
  then show ?thesis using fl_pos [of x] by simp
next
  case False
  show ?thesis
  proof (cases "x = 0")
    case True
    then show ?thesis by simp
  next
    case nz: False
    then have "x < 0" using False by simp
    then show ?thesis using fl_neg [of x] by simp
  qed
qed

lemma float_sub_pos_iff: "0 < float_sub x y \<longleftrightarrow> y < x"
  by (simp add: float_sub_def fl_pos_iff)

lemma fl_of_int:
  assumes "\<bar>n\<bar> < 2 ^ 53"
  shows "fl (of_int n) = of_int n"
proof (cases "n = 0")
  case True
  then show ?thesis by simp
next
  case False
  let ?x = "real_of_int n"
  let ?e = "\<lfloor>log 2 \<bar>?x\<bar>\<rfloor>"
  have nz: "?x \<noteq> 0" using False by simp
  have "1 \<le> \<bar>n\<bar>" using False by simp
  then have ge1: "1 \<le> \<bar>?x\<bar>" by (metis of_int_1_le_iff of_int_abs)
  have lt: "\<bar>?x\<bar> < 2 ^ 53"
    using assms by (metis of_int_abs of_int_less_numeral_power_cancel_iff)
  have "\<bar>?x\<bar> < 2 powr 53" using lt by simp
  then have "log 2 \<bar>?x\<bar> < 53"
    using ge1 by (simp add: log_less_iff)
  then have e52: "?e \<le> 52" by (simp add: floor_le_iff)
  define k where "k = nat (52 - ?e)"
  have k: "real_of_int (52 - ?e) = real k" using e52 by (simp add: k_def)
  have sc: "(2::real) powr real_of_int (52 - ?e) = 2 ^ k"
    by (simp only: k) (simp add: powr_realpow)
  have "?x * 2 ^ k = real_of_int (n * 2 ^ k)" by simp
  then have "round_even (?x * 2 ^ k) = n * 2 ^ k"
    by (simp only: round_even_of_int)
  then have r: "round_even (?x * 2 powr real_of_int (52 - ?e)) = n * 2 ^ k"
    by (simp only: sc)
  have "real_of_int (52 - ?e) + real_of_int (?e - 52) = 0" by simp
  then have "(2::real) powr real_of_int (52 - ?e) * 2 powr real_of_int (?e - 52) = 2 powr 0"
    by (simp only: powr_add [symmetric])
  then have inv: "(2::real) ^ k * 2 powr real_of_int (?e - 52) = 1"
    by (simp only: sc) simp
  have "fl ?x = real_of_int (n * 2 ^ k) * 2 powr real_of_int (?e - 52)"
    by (simp only: fl_unfold [OF nz] r)
  also have "\<dots> = ?x * ((2::real) ^ k * 2 powr real_of_int (?e - 52))" by simp
  also have "\<dots> = ?x" by (simp only: inv mult_1_right)
  finally show ?thesis .
qed

lemma fl_numeral [simp]: "\<bar>numeral w :: int\<bar> < 2 ^ 53 \<Longrightarrow> fl (numeral w) = numeral w"
  using fl_of_int [of "numeral w"] by simp

lemma fl_neg_numeral [simp]:
  "\<bar>numeral w :: int\<bar> < 2 ^ 53 \<Longrightarrow> fl (- numeral w) = - numeral w"
  using fl_of_int [of "- numeral w"] by simp

lemma fl_one [simp]: "fl 1 = 1"
  using fl_of_int [of 1] by simp

lemma fl_neg_one [simp]: "fl (- 1) = - 1"
  using fl_of_int [of "- 1"] by simp

lemma fl_tie: "fl 9007199254740993 = 9007199254740992"
proof -
  let ?x = "9007199254740993 :: real"
  have nz: "?x \<noteq> 0" by simp
  have p53: "(2::real) powr real_of_int 53 = 9007199254740992" by simp
  have p54: "(2::real) powr real_of_int (53 + 1) = 18014398509481984" by simp
  have "(2::real) powr real_of_int 53 \<le> \<bar>?x\<bar> \<and> \<bar>?x\<bar> < 2 powr real_of_int (53 + 1)"
    by (simp only: p53 p54) simp
  then have e: "\<lfloor>log 2 \<bar>?x\<bar>\<rfloor> = 53"
    using floor_log_eq_powr_iff [of "\<bar>?x\<bar>" 2 53] by simp
  have s1: "(2::real) powr real_of_int (52 - 53) = 1/2"
    using powr_neg_one [of "2::real"] by simp
  have s2: "(2::real) powr real_of_int (53 - 52) = 2" by simp
  have f: "\<lfloor>?x * (1/2)\<rfloor> = 4503599627370496" by (simp add: floor_eq_iff)
  have r: "round_even (?x * (1/2)) = 4503599627370496"
    unfolding round_even_def Let_def f by simp
  have "fl ?x = real_of_int (round_even (?x * 2 powr real_of_int (52 - 53)))
          * 2 powr real_of_int (53 - 52)"
    by (simp only: fl_unfold [OF nz] e)
  also have "\<dots> = real_of_int 4503599627370496 * 2" by (simp only: s1 s2 r)
  also have "\<dots> = 9007199254740992" by simp
  finally show ?thesis .
qed

subsection \<open>Facts about the packing loop\<close>

lemma chunk_segments_chunk_dict [simp]: "chunk_segments (chunk_dict a b l) = l"
  by (simp add: chunk_segments_def chunk_dict_def)

lemma merge_step_flat:
  "concat (map chunk_segments (merged_segments (merge_step cs s seg))) @ seg_idxs (merge_step cs s seg)
   = concat (map chunk_segments (merged_segments s)) @ seg_idxs s @ [(seg_start seg, seg_end seg)]"
  by (simp add: merge_step_def Let_def)

lemma merge_loop_flat:
  "concat (map chunk_segments (merged_segments (merge_loop cs s segs))) @ seg_idxs (merge_loop cs s segs)
   = concat (map chunk_segments (merged_segments s)) @ seg_idxs s
     @ map (\<lambda>seg. (seg_start seg, seg_end seg)) segs"
proof (induction segs arbitrary: s)
  case Nil
  show ?case by simp
next
  case (Cons seg segs)
  show ?case
    using Cons.IH [of "merge_step cs s seg"] merge_step_flat [of cs s seg] by simp
qed

text \<open>
  C1. For a non-empty input and a positive chunk size \<^verbatim>\<open>merge_chunks\<close> returns, and the
  \<^verbatim>\<open>segments\<close> lists of the returned chunks, concatenated in output order, are exactly the
  (start, end) pairs of the input segments in their original order: nothing is lost,
  duplicated or reordered. (The order of the input by start is not needed.)
\<close>

theorem merge_chunks_flatten:
  assumes "segments_list \<noteq> []" and "chunk_size > 0"
  shows "\<exists>chunks. merge_chunks segments_list chunk_size = Inr chunks
           \<and> concat (map chunk_segments chunks)
             = map (\<lambda>seg. (seg_start seg, seg_end seg)) segments_list"
proof -
  obtain seg0 rest where sl: "segments_list = seg0 # rest"
    using assms(1) by (cases segments_list) auto
  define s0 :: "'a chunk_state" where
    "s0 = \<lparr>curr_start = seg_start seg0, curr_end = 0, merged_segments = [],
           seg_idxs = [], speaker_idxs = []\<rparr>"
  define s where "s = merge_loop chunk_size s0 segments_list"
  have res: "merge_chunks segments_list chunk_size
             = Inr (merged_segments s @ [chunk_dict (curr_start s) (curr_end s) (seg_idxs s)])"
    using assms(2) by (simp add: merge_chunks_def sl s_def s0_def Let_def)
  have "concat (map chunk_segments (merged_segments s)) @ seg_idxs s
        = map (\<lambda>seg. (seg_start seg, seg_end seg)) segments_list"
    using merge_loop_flat [of chunk_size s0 segments_list] by (simp add: s_def s0_def)
  then show ?thesis using res by simp
qed

theorem merge_chunks_flatten_witness:
  "merge_chunks
     [\<lparr>seg_start = 0, seg_end = 10, speaker = ''A''\<rparr>,
      \<lparr>seg_start = 10, seg_end = 25, speaker = ''B''\<rparr>,
      \<lparr>seg_start = 25, seg_end = 40, speaker = ''A''\<rparr>] 20
   = Inr [chunk_dict 0 10 [(0, 10)], chunk_dict 10 25 [(10, 25)], chunk_dict 25 40 [(25, 40)]]
   \<and> concat (map chunk_segments
        [chunk_dict 0 10 [(0, 10)], chunk_dict 10 25 [(10, 25)], chunk_dict 25 40 [(25, 40)]])
     = [(0, 10), (10, 25), (25, 40)]"
  using merge_chunks_flatten
    [of "[\<lparr>seg_start = 0, seg_end = 10, speaker = ''A''\<rparr>,
          \<lparr>seg_start = 10, seg_end = 25, speaker = ''B''\<rparr>,
          \<lparr>seg_start = 25, seg_end = 40, speaker = ''A''\<rparr>]" 20]
  by (simp add: merge_chunks_def merge_step_def float_sub_def Let_def)

subsection \<open>The duration of a chunk\<close>

lemma merge_step_inv:
  assumes "pack_inv cs s" and "curr_start s \<le> seg_start seg" and "seg_start seg < seg_end seg"
  shows "pack_inv cs (merge_step cs s seg) \<and> seg_idxs (merge_step cs s seg) \<noteq> []
         \<and> (curr_start (merge_step cs s seg) = curr_start s
              \<or> curr_start (merge_step cs s seg) = seg_start seg)"
proof (cases "float_sub (seg_end seg) (curr_start s) > cs
              \<and> float_sub (curr_end s) (curr_start s) > 0")
  case True
  then have ne: "seg_idxs s \<noteq> []" using assms(1) by (auto simp: pack_inv_def)
  have "chunk_ok cs (chunk_dict (curr_start s) (curr_end s) (seg_idxs s))"
    unfolding chunk_ok_def using assms(1) ne by (auto simp: pack_inv_def)
  moreover have "0 < float_sub (seg_end seg) (seg_start seg)"
    using assms(3) by (simp add: float_sub_pos_iff)
  ultimately show ?thesis
    using True assms(1) by (simp add: merge_step_def pack_inv_def)
next
  case False
  have pos: "0 < float_sub (seg_end seg) (curr_start s)"
    using assms(2,3) by (simp add: float_sub_pos_iff)
  show ?thesis
  proof (cases "seg_idxs s = []")
    case True
    then show ?thesis using False assms(1) pos by (simp add: merge_step_def pack_inv_def)
  next
    case ne: False
    then have "float_sub (curr_end s) (curr_start s) > 0"
      using assms(1) by (simp add: pack_inv_def)
    then have "float_sub (seg_end seg) (curr_start s) \<le> cs" using False by simp
    then show ?thesis using False assms(1) ne pos by (simp add: merge_step_def pack_inv_def)
  qed
qed

lemma merge_loop_inv:
  assumes "sorted (map seg_start segs)" and "\<forall>seg \<in> set segs. seg_start seg < seg_end seg"
    and "pack_inv cs s" and "\<forall>seg \<in> set segs. curr_start s \<le> seg_start seg"
  shows "pack_inv cs (merge_loop cs s segs)
         \<and> (segs \<noteq> [] \<longrightarrow> seg_idxs (merge_loop cs s segs) \<noteq> [])"
  using assms
proof (induction segs arbitrary: s)
  case Nil
  then show ?case by simp
next
  case (Cons seg segs)
  let ?s = "merge_step cs s seg"
  have st: "pack_inv cs ?s \<and> seg_idxs ?s \<noteq> []
            \<and> (curr_start ?s = curr_start s \<or> curr_start ?s = seg_start seg)"
    using merge_step_inv [of cs s seg] Cons.prems by simp
  have le: "\<forall>x \<in> set segs. curr_start ?s \<le> seg_start x"
    using st Cons.prems(1,4) by auto
  have ih: "pack_inv cs (merge_loop cs ?s segs)
            \<and> (segs \<noteq> [] \<longrightarrow> seg_idxs (merge_loop cs ?s segs) \<noteq> [])"
    using Cons.IH [of ?s] Cons.prems(1,2) st le by simp
  show ?case
  proof (cases segs)
    case Nil
    then show ?thesis using st by simp
  next
    case (Cons a list)
    then show ?thesis using ih by simp
  qed
qed

text \<open>
  C3 (amended). For an input ordered by start in which every segment has
  \<open>0 \<le> start < end\<close>, and a positive chunk size, every returned chunk with more than one
  segment has \<open>end - start \<le> chunk_size\<close>, and a chunk whose \<open>end - start\<close> exceeds the
  chunk size holds exactly one segment, where \<open>end - start\<close> is the float difference, as
  the guard at line 104 computes it.
\<close>

theorem merge_chunks_bounded:
  assumes "sorted (map seg_start segments_list)"
    and "\<forall>seg \<in> set segments_list. 0 \<le> seg_start seg \<and> seg_start seg < seg_end seg"
    and "segments_list \<noteq> []" and "chunk_size > 0"
  shows "\<exists>chunks. merge_chunks segments_list chunk_size = Inr chunks
           \<and> (\<forall>c \<in> set chunks. \<exists>a b l. c = chunk_dict a b l
                 \<and> (1 < length l \<longrightarrow> float_sub b a \<le> chunk_size)
                 \<and> (float_sub b a > chunk_size \<longrightarrow> length l = 1))"
proof -
  obtain seg0 rest where sl: "segments_list = seg0 # rest"
    using assms(3) by (cases segments_list) auto
  define s0 :: "'a chunk_state" where
    "s0 = \<lparr>curr_start = seg_start seg0, curr_end = 0, merged_segments = [],
           seg_idxs = [], speaker_idxs = []\<rparr>"
  define s where "s = merge_loop chunk_size s0 segments_list"
  have res: "merge_chunks segments_list chunk_size
             = Inr (merged_segments s @ [chunk_dict (curr_start s) (curr_end s) (seg_idxs s)])"
    using assms(4) by (simp add: merge_chunks_def sl s_def s0_def Let_def)
  have lt: "\<forall>seg \<in> set segments_list. seg_start seg < seg_end seg"
    using assms(2) by simp
  have "0 \<le> seg_start seg0" using assms(2) by (simp add: sl)
  then have i0: "pack_inv chunk_size s0"
    by (simp add: pack_inv_def s0_def float_sub_pos_iff)
  have le0: "\<forall>seg \<in> set segments_list. curr_start s0 \<le> seg_start seg"
    using assms(1) by (auto simp: s0_def sl)
  have inv: "pack_inv chunk_size s \<and> seg_idxs s \<noteq> []"
    using merge_loop_inv [OF assms(1) lt i0 le0] assms(3) by (simp add: s_def)
  have last_ok: "chunk_ok chunk_size (chunk_dict (curr_start s) (curr_end s) (seg_idxs s))"
    unfolding chunk_ok_def using inv by (auto simp: pack_inv_def)
  have all_ok: "\<forall>c \<in> set (merged_segments s @ [chunk_dict (curr_start s) (curr_end s) (seg_idxs s)]).
                  chunk_ok chunk_size c"
    using inv last_ok by (auto simp: pack_inv_def)
  have imp: "\<And>c. chunk_ok chunk_size c \<Longrightarrow> \<exists>a b l. c = chunk_dict a b l
                 \<and> (1 < length l \<longrightarrow> float_sub b a \<le> chunk_size)
                 \<and> (float_sub b a > chunk_size \<longrightarrow> length l = 1)"
  proof -
    fix c assume "chunk_ok chunk_size c"
    then obtain a b l where c: "c = chunk_dict a b l" "l \<noteq> []"
        "1 < length l \<longrightarrow> float_sub b a \<le> chunk_size"
      unfolding chunk_ok_def by blast
    have "float_sub b a > chunk_size \<longrightarrow> length l = 1"
      using c(2,3) by (cases l) (auto simp: not_less)
    then show "\<exists>a b l. c = chunk_dict a b l
                 \<and> (1 < length l \<longrightarrow> float_sub b a \<le> chunk_size)
                 \<and> (float_sub b a > chunk_size \<longrightarrow> length l = 1)"
      using c by blast
  qed
  show ?thesis using res all_ok imp by blast
qed

text \<open>
  The witness is an input on which the rounding matters: the second segment ends at
  \<open>2 ^ 53 + 2\<close>, the chunk starts at 1, and the chunk size is \<open>2 ^ 53\<close>.
\<close>

theorem merge_chunks_bounded_witness:
  "sorted (map seg_start
     [\<lparr>seg_start = 1, seg_end = 2, speaker = ''A''\<rparr>,
      \<lparr>seg_start = 3, seg_end = 9007199254740994, speaker = ''B''\<rparr>])
   \<and> merge_chunks
        [\<lparr>seg_start = 1, seg_end = 2, speaker = ''A''\<rparr>,
         \<lparr>seg_start = 3, seg_end = 9007199254740994, speaker = ''B''\<rparr>] 9007199254740992
      = Inr [chunk_dict 1 9007199254740994 [(1, 2), (3, 9007199254740994)]]
   \<and> float_sub 9007199254740994 1 = 9007199254740992
   \<and> (\<exists>chunks. merge_chunks
        [\<lparr>seg_start = 1, seg_end = 2, speaker = ''A''\<rparr>,
         \<lparr>seg_start = 3, seg_end = 9007199254740994, speaker = ''B''\<rparr>] 9007199254740992
          = Inr chunks
         \<and> (\<forall>c \<in> set chunks. \<exists>a b l. c = chunk_dict a b l
                 \<and> (1 < length l \<longrightarrow> float_sub b a \<le> 9007199254740992)
                 \<and> (float_sub b a > 9007199254740992 \<longrightarrow> length l = 1)))"
proof -
  let ?segs = "[\<lparr>seg_start = 1, seg_end = 2, speaker = ''A''\<rparr>,
      \<lparr>seg_start = 3, seg_end = 9007199254740994, speaker = ''B''\<rparr>]"
  have h1: "sorted (map seg_start ?segs)" by simp
  have h2: "\<forall>seg \<in> set ?segs. 0 \<le> seg_start seg \<and> seg_start seg < seg_end seg" by simp
  have h3: "?segs \<noteq> []" by simp
  have h4: "(9007199254740992::real) > 0" by simp
  have fs: "float_sub 9007199254740994 1 = 9007199254740992"
    by (simp add: float_sub_def fl_tie)
  have ev: "merge_chunks ?segs 9007199254740992
      = Inr [chunk_dict 1 9007199254740994 [(1, 2), (3, 9007199254740994)]]"
    by (simp add: merge_chunks_def merge_step_def float_sub_def fl_tie Let_def)
  show ?thesis
    using merge_chunks_bounded [OF h1 h2 h3 h4] h1 ev fs by blast
qed

text \<open>
  As stated, with the exact difference of end and start, C3 fails on that input: the
  float difference \<open>(2 ^ 53 + 2) - 1\<close> is \<open>2 ^ 53\<close>, not greater than the chunk size, so
  the second segment joins the chunk, whose exact \<open>end - start\<close> is \<open>2 ^ 53 + 1\<close>.
\<close>

theorem merge_chunks_bounded_counterexample:
  "merge_chunks
     [\<lparr>seg_start = 1, seg_end = 2, speaker = ''A''\<rparr>,
      \<lparr>seg_start = 3, seg_end = 9007199254740994, speaker = ''B''\<rparr>] 9007199254740992
   = Inr [chunk_dict 1 9007199254740994 [(1, 2), (3, 9007199254740994)]]
   \<and> 1 < length [(1 :: real, 2 :: real), (3, 9007199254740994)]
   \<and> (9007199254740994 :: real) - 1 > 9007199254740992"
  by (simp add: merge_chunks_def merge_step_def float_sub_def fl_tie Let_def)

subsection \<open>The fields of a chunk\<close>

lemma merge_step_dicts:
  assumes "\<forall>c \<in> set (merged_segments s). \<exists>a b l. c = chunk_dict a b l"
  shows "\<forall>c \<in> set (merged_segments (merge_step cs s seg)). \<exists>a b l. c = chunk_dict a b l"
  using assms by (auto simp: merge_step_def Let_def)

lemma merge_loop_dicts:
  assumes "\<forall>c \<in> set (merged_segments s). \<exists>a b l. c = chunk_dict a b l"
  shows "\<forall>c \<in> set (merged_segments (merge_loop cs s segs)). \<exists>a b l. c = chunk_dict a b l"
  using assms
proof (induction segs arbitrary: s)
  case Nil
  then show ?case by simp
next
  case (Cons seg segs)
  show ?case
    using Cons.IH [OF merge_step_dicts [OF Cons.prems, of cs seg]] by simp
qed

text \<open>
  The speaker labels are collected in step with the (start, end) pairs, and go no
  further than the local list.
\<close>

lemma merge_step_speakers:
  assumes "length (speaker_idxs s) = length (seg_idxs s)"
  shows "length (speaker_idxs (merge_step cs s seg)) = length (seg_idxs (merge_step cs s seg))"
  using assms by (simp add: merge_step_def Let_def)

lemma merge_loop_speakers:
  assumes "length (speaker_idxs s) = length (seg_idxs s)"
  shows "length (speaker_idxs (merge_loop cs s segs)) = length (seg_idxs (merge_loop cs s segs))"
  using assms
proof (induction segs arbitrary: s)
  case Nil
  then show ?case by simp
next
  case (Cons seg segs)
  show ?case
    using Cons.IH [OF merge_step_speakers [OF Cons.prems, of cs seg]] by simp
qed

text \<open>
  C2 (amended). Every chunk record that \<^verbatim>\<open>merge_chunks\<close> returns has exactly the three
  keys \<^verbatim>\<open>start\<close>, \<^verbatim>\<open>end\<close> and \<^verbatim>\<open>segments\<close>, in this order, with a float, a float and a list
  of (start, end) pairs; it has no key \<^verbatim>\<open>speakers\<close>.
\<close>

theorem merge_chunks_keys:
  assumes "merge_chunks segments_list chunk_size = Inr chunks" and "c \<in> set chunks"
  shows "(\<exists>a b l. c = [(''start'', Float a), (''end'', Float b), (''segments'', SegList l)])
         \<and> map fst c = [''start'', ''end'', ''segments'']
         \<and> map_of c ''speakers'' = None"
proof -
  from assms(1) have pos: "chunk_size > 0"
    by (auto simp: merge_chunks_def split: if_splits)
  from assms(1) pos obtain seg0 rest where sl: "segments_list = seg0 # rest"
    by (cases segments_list) (auto simp: merge_chunks_def)
  define s0 :: "'a chunk_state" where
    "s0 = \<lparr>curr_start = seg_start seg0, curr_end = 0, merged_segments = [],
           seg_idxs = [], speaker_idxs = []\<rparr>"
  define s where "s = merge_loop chunk_size s0 segments_list"
  have res: "chunks = merged_segments s @ [chunk_dict (curr_start s) (curr_end s) (seg_idxs s)]"
    using assms(1) pos by (simp add: merge_chunks_def sl s_def s0_def Let_def)
  have "\<forall>c \<in> set (merged_segments s0). \<exists>a b l. c = chunk_dict a b l"
    by (simp add: s0_def)
  then have "\<forall>c \<in> set (merged_segments s). \<exists>a b l. c = chunk_dict a b l"
    unfolding s_def by (rule merge_loop_dicts)
  then obtain a b l where "c = chunk_dict a b l"
    using assms(2) res by auto
  then show ?thesis by (simp add: chunk_dict_def)
qed

theorem merge_chunks_keys_witness:
  "merge_chunks [\<lparr>seg_start = 0, seg_end = 1, speaker = ''A''\<rparr>] 30
     = Inr [[(''start'', Float 0), (''end'', Float 1), (''segments'', SegList [(0, 1)])]]
   \<and> map fst [(''start'', Float 0), (''end'', Float 1), (''segments'', SegList [(0, 1)])]
     = [''start'', ''end'', ''segments'']"
proof -
  have ev: "merge_chunks [\<lparr>seg_start = 0, seg_end = 1, speaker = ''A''\<rparr>] 30
     = Inr [[(''start'', Float 0), (''end'', Float 1), (''segments'', SegList [(0, 1)])]]"
    by (simp add: merge_chunks_def merge_step_def float_sub_def Let_def chunk_dict_def)
  have "[(''start'', Float 0), (''end'', Float 1), (''segments'', SegList [(0, 1)])]
        \<in> set [[(''start'', Float 0), (''end'', Float 1), (''segments'', SegList [(0, 1)])]]"
    by simp
  from merge_chunks_keys [OF ev this] ev show ?thesis by blast
qed

text \<open>
  As stated, with a field \<^verbatim>\<open>speakers\<close> in every record, C2 fails: the record of a
  one-segment input has no such key.
\<close>

theorem merge_chunks_keys_counterexample:
  "merge_chunks [\<lparr>seg_start = 0, seg_end = 1, speaker = ''A''\<rparr>] 30
     = Inr [[(''start'', Float 0), (''end'', Float 1), (''segments'', SegList [(0, 1)])]]
   \<and> map_of [(''start'', Float 0), (''end'', Float 1), (''segments'', SegList [(0, 1)])]
        ''speakers'' = None"
  by (simp add: merge_chunks_def merge_step_def float_sub_def Let_def chunk_dict_def)

subsection \<open>The preconditions of the packer\<close>



subsection \<open>The offset threshold of \<^verbatim>\<open>Binarize\<close>\<close>

text \<open>
  C10. Constructing \<^verbatim>\<open>Binarize\<close> with the offset 0.0 given explicitly yields the effective
  offset \<^verbatim>\<open>onset\<close>, exactly as leaving the offset out does; so with \<^verbatim>\<open>onset > 0\<close> no
  argument makes the effective offset 0.
\<close>

theorem binarize_init_offset_zero:
  "offset (Binarize_init on (Some 0) mon moff pon poff md) = on
   \<and> Binarize_init on (Some 0) mon moff pon poff md = Binarize_init on None mon moff pon poff md
   \<and> (0 < on \<longrightarrow> offset (Binarize_init on off mon moff pon poff md) \<noteq> 0)"
  by (simp add: Binarize_init_def split: option.splits)

theorem binarize_init_offset_zero_witness:
  "offset (Binarize_init (1/2) (Some 0) 0 0 0 0 Infinity) = 1/2
   \<and> (0::real) < 1/2
   \<and> offset (Binarize_init (1/2) (Some 0) 0 0 0 0 Infinity) \<noteq> 0"
proof -
  have h: "(0::real) < 1/2" by simp
  from binarize_init_offset_zero [of "1/2" 0 0 0 0 Infinity "Some 0"] h
  show ?thesis by blast
qed

subsection \<open>Evaluation on concrete inputs\<close>

lemmas binarize_eval =
  binarize_def binarize_track_def track_step_def track_init_def divide_segment_def
  append_frame_def np_argmin_def py_index_def annotation_set_def support_def drop_short_def
  Binarize_init_def merge_enabled_def float_sub_def float_add_def Let_def

subsection \<open>The split of a run that exceeds \<^verbatim>\<open>max_duration\<close>\<close>

lemma first_min_index_less: "xs \<noteq> [] \<Longrightarrow> first_min_index xs < length xs"
  by (induction xs rule: first_min_index.induct) (auto simp: Let_def)

lemma first_min_index_least:
  "j < length xs \<Longrightarrow> xs ! first_min_index xs \<le> xs ! j"
proof (induction xs arbitrary: j rule: first_min_index.induct)
  case 1
  then show ?case by simp
next
  case (2 x)
  then show ?case by simp
next
  case (3 x y ys)
  let ?m = "first_min_index (y # ys)"
  show ?case
  proof (cases j)
    case 0
    then show ?thesis by (simp add: Let_def)
  next
    case (Suc j')
    then have "(y # ys) ! ?m \<le> (y # ys) ! j'" using 3 by simp
    then show ?thesis using Suc by (auto simp: Let_def)
  qed
qed

lemma first_min_index_first:
  "j < first_min_index xs \<Longrightarrow> xs ! first_min_index xs < xs ! j"
proof (induction xs arbitrary: j rule: first_min_index.induct)
  case 1
  then show ?case by simp
next
  case (2 x)
  then show ?case by simp
next
  case (3 x y ys)
  let ?m = "first_min_index (y # ys)"
  from "3.prems" have big: "\<not> x \<le> (y # ys) ! ?m"
    by (auto simp: Let_def split: if_splits)
  then have idx: "first_min_index (x # y # ys) = Suc ?m" by (simp add: Let_def)
  show ?case
  proof (cases j)
    case 0
    then show ?thesis using big idx by simp
  next
    case (Suc j')
    then have "j' < ?m" using "3.prems" idx by simp
    then have "(y # ys) ! ?m < (y # ys) ! j'" using "3.IH" by simp
    then show ?thesis using Suc idx by simp
  qed
qed

text \<open>
  The split, in a state whose buffer is not empty. The index \<open>i\<close> lies in
  \<open>[L div 2, L)\<close>, its score is least in that range and less than every score at an
  earlier index of the range. When the annotation holds no region yet, the region
  \<^verbatim>\<open>[start - pad_onset, curr_timestamps[i] + pad_offset]\<close> is stored, \<^verbatim>\<open>start\<close> becomes
  \<^verbatim>\<open>curr_timestamps[i]\<close> and the entries up to and including \<open>i\<close> leave the buffer; when
  it holds a region, the assignment of line 215 raises.
\<close>

lemma divide_segment_split:
  assumes "buf_inv s"
  defines "L \<equiv> length (curr_scores s)"
  defines "i \<equiv> L div 2 + first_min_index (drop (L div 2) (curr_scores s))"
  shows "L div 2 \<le> i \<and> i < L
    \<and> (\<forall>j. L div 2 \<le> j \<and> j < L \<longrightarrow> curr_scores s ! i \<le> curr_scores s ! j)
    \<and> (\<forall>j. L div 2 \<le> j \<and> j < i \<longrightarrow> curr_scores s ! i < curr_scores s ! j)
    \<and> divide_segment b k lbl s
       = (if active s = []
          then Inr (s\<lparr>active := [((float_sub (start s) (pad_onset b),
                                    float_add (curr_timestamps s ! i) (pad_offset b)), k, lbl)],
                      start := curr_timestamps s ! i,
                      curr_scores := drop (i + 1) (curr_scores s),
                      curr_timestamps := drop (i + 1) (curr_timestamps s)\<rparr>)
          else Inl TypeError)"
proof -
  let ?h = "L div 2"
  let ?xs = "drop ?h (curr_scores s)"
  let ?a = "first_min_index ?xs"
  have Lpos: "0 < L" and len: "length (curr_timestamps s) = L"
    using assms(1) by (auto simp: buf_inv_def L_def)
  then have hl: "?h < L" by simp
  then have ne: "?xs \<noteq> []" by (simp add: L_def)
  have lx: "length ?xs = L - ?h" by (simp add: L_def)
  have a_lt: "?a < L - ?h" using first_min_index_less [OF ne] lx by simp
  then have i_lt: "i < L" and i_ge: "?h \<le> i" by (auto simp: i_def)
  have at: "\<And>n. n < L - ?h \<Longrightarrow> ?xs ! n = curr_scores s ! (?h + n)"
    by (simp add: L_def)
  have e2: "?xs ! ?a = curr_scores s ! i"
    using at [OF a_lt] by (simp add: i_def)
  have mn: "\<forall>j. ?h \<le> j \<and> j < L \<longrightarrow> curr_scores s ! i \<le> curr_scores s ! j"
  proof (intro allI impI)
    fix j assume j: "?h \<le> j \<and> j < L"
    then have jl: "j - ?h < L - ?h" by linarith
    have e1: "?xs ! (j - ?h) = curr_scores s ! j" using at [OF jl] j by simp
    have "j - ?h < length ?xs" using jl by (simp only: lx)
    then have "?xs ! ?a \<le> ?xs ! (j - ?h)" by (rule first_min_index_least)
    then show "curr_scores s ! i \<le> curr_scores s ! j" using e1 e2 by simp
  qed
  have fst: "\<forall>j. ?h \<le> j \<and> j < i \<longrightarrow> curr_scores s ! i < curr_scores s ! j"
  proof (intro allI impI)
    fix j assume j: "?h \<le> j \<and> j < i"
    then have ja: "j - ?h < ?a" unfolding i_def by linarith
    then have jl: "j - ?h < L - ?h" using a_lt by linarith
    have e1: "?xs ! (j - ?h) = curr_scores s ! j" using at [OF jl] j by simp
    have "?xs ! ?a < ?xs ! (j - ?h)" using ja by (rule first_min_index_first)
    then show "curr_scores s ! i < curr_scores s ! j" using e1 e2 by simp
  qed
  have "divide_segment b k lbl s
       = (if active s = []
          then Inr (s\<lparr>active := [((float_sub (start s) (pad_onset b),
                                    float_add (curr_timestamps s ! i) (pad_offset b)), k, lbl)],
                      start := curr_timestamps s ! i,
                      curr_scores := drop (i + 1) (curr_scores s),
                      curr_timestamps := drop (i + 1) (curr_timestamps s)\<rparr>)
          else Inl TypeError)"
    using ne i_lt len
    by (simp add: divide_segment_def Let_def np_argmin_def py_index_def annotation_set_def
        i_def L_def)
  then show ?thesis using i_ge i_lt mn fst by blast
qed

lemma track_step_buf_inv:
  assumes "buf_inv s" and "track_step b k lbl s ty = Inr s'"
  shows "buf_inv s'"
proof -
  let ?s = "s\<lparr>t_var := Some (fst ty)\<rparr>"
  have inv: "buf_inv ?s" using assms(1) by (simp add: buf_inv_def)
  note d = divide_segment_split [OF inv, of b k lbl]
  show ?thesis
    using assms d
    by (auto simp: track_step_def Let_def append_frame_def buf_inv_def annotation_set_def
        split: if_splits sum.splits)
qed

lemma track_loop_buf_inv:
  assumes "buf_inv s" and "track_loop b k lbl s tys = Inr s'"
  shows "buf_inv s'"
  using assms
proof (induction tys arbitrary: s)
  case Nil
  then show ?case by simp
next
  case (Cons ty tys)
  from Cons.prems(2) obtain s1 where s1: "track_step b k lbl s ty = Inr s1"
      "track_loop b k lbl s1 tys = Inr s'"
    by (auto split: sum.splits)
  from Cons.IH [OF track_step_buf_inv [OF Cons.prems(1) s1(1)] s1(2)] show ?case .
qed

lemma track_init_buf_inv: "buf_inv (track_init b a tv t0 y0)"
  by (simp add: buf_inv_def track_init_def)

text \<open>
  C4 fails once the annotation holds a region. \<^verbatim>\<open>Binarize(max_duration=1.0)\<close> on four
  frames at the times 0, 1, 2, 3 with the score 0.9 each: the frame at 2 splits the run
  and stores the region [0, 1]; at the frame at 3 the track is active and \<open>3 - 1 > 1\<close>, the
  split builds the region [1, 2], and the assignment of line 215 raises \<^verbatim>\<open>TypeError\<close>
  instead of emitting it.
\<close>

theorem max_duration_split_second_region:
  "track_loop (Binarize_init (1/2) None 0 0 0 0 (Finite 1)) 0 (Index 0)
     (track_init (Binarize_init (1/2) None 0 0 0 0 (Finite 1)) [] None 0 (9/10))
     [(1, 9/10), (2, 9/10)]
   = Inr \<lparr>active = [((0, 1), 0, Index 0)], t_var = Some 2, start = 1, is_active = True,
          curr_scores = [9/10], curr_timestamps = [2]\<rparr>
   \<and> exceeds (float_sub 3 1) (max_duration (Binarize_init (1/2) None 0 0 0 0 (Finite 1)))
   \<and> track_step (Binarize_init (1/2) None 0 0 0 0 (Finite 1)) 0 (Index 0)
        \<lparr>active = [((0, 1), 0, Index 0)], t_var = Some 2, start = 1, is_active = True,
         curr_scores = [9/10], curr_timestamps = [2]\<rparr> (3, 9/10)
      = Inl TypeError
   \<and> binarize (Binarize_init (1/2) None 0 0 0 0 (Finite 1))
        \<lparr>timestamps = [0, 1, 2, 3], data_T = [[9/10, 9/10, 9/10, 9/10]], labels = None\<rparr>
      = Inl TypeError"
  by (simp add: binarize_eval)

subsection \<open>The region after the loop\<close>

text \<open>
  C8 fails on a grid with exactly one frame whose track is active: the loop over the
  frames after the first makes no pass, \<^verbatim>\<open>t\<close> is unbound when the final region reads it,
  and the call raises instead of emitting \<^verbatim>\<open>[start - pad_onset, timestamp + pad_offset]\<close>.
\<close>

theorem binarize_single_frame:
  "binarize (Binarize_init (1/2) None 0 0 0 0 Infinity)
     \<lparr>timestamps = [0], data_T = [[9/10]], labels = None\<rparr> = Inl NameError"
  by (simp add: binarize_def binarize_track_def Binarize_init_def py_index_def track_init_def)

subsection \<open>The segments that are produced\<close>

text \<open>
  C5 fails on a grid whose track becomes active at the last frame. \<^verbatim>\<open>Binarize()\<close> on two
  frames at the times 0 and 1 with the scores 0.1 and 0.9: the frame at 1 sets
  \<^verbatim>\<open>start = 1\<close>, the final region is built from \<^verbatim>\<open>start\<close> and \<^verbatim>\<open>t = 1\<close>, and the annotation
  that is returned holds the region [1, 1], whose start is not less than its end.
\<close>

theorem binarize_empty_region:
  "binarize (Binarize_init (1/2) None 0 0 0 0 Infinity)
     \<lparr>timestamps = [0, 1], data_T = [[1/10, 9/10]], labels = None\<rparr>
   = Inr [((1, 1), 0, Index 0)]"
  by (simp add: binarize_eval)

subsection \<open>The merge step and \<^verbatim>\<open>max_duration\<close>\<close>

text \<open>
  C6 fails on a grid with two regions. With \<^verbatim>\<open>pad_onset = 1.0\<close> on seven frames at the
  times 0 to 6 with the scores 0.9, 0.9, 0.9, 0.1, 0.1, 0.9, 0.9, the frame at 3 stores the
  region [-1, 3] and the final region [4, 6] is the second one: its assignment at line 239
  raises \<^verbatim>\<open>TypeError\<close>. So with \<^verbatim>\<open>max_duration = 30\<close> the call does not reach the
  configuration check of line 244, and with the infinite \<^verbatim>\<open>max_duration\<close> the parameters
  are not accepted and nothing is merged.
\<close>

theorem binarize_config_second_region:
  "merge_enabled (pad_offset (Binarize_init (1/2) None 0 0 1 0 (Finite 30)))
     (pad_onset (Binarize_init (1/2) None 0 0 1 0 (Finite 30)))
     (min_duration_off (Binarize_init (1/2) None 0 0 1 0 (Finite 30)))
   \<and> max_duration (Binarize_init (1/2) None 0 0 1 0 (Finite 30)) \<noteq> Infinity
   \<and> binarize (Binarize_init (1/2) None 0 0 1 0 (Finite 30))
        \<lparr>timestamps = [0, 1, 2, 3, 4, 5, 6],
         data_T = [[9/10, 9/10, 9/10, 1/10, 1/10, 9/10, 9/10]], labels = None\<rparr>
      = Inl TypeError
   \<and> binarize (Binarize_init (1/2) None 0 0 1 0 Infinity)
        \<lparr>timestamps = [0, 1, 2, 3, 4, 5, 6],
         data_T = [[9/10, 9/10, 9/10, 1/10, 1/10, 9/10, 9/10]], labels = None\<rparr>
      = Inl TypeError"
  by (simp add: binarize_eval)

subsection \<open>The intervals of \<^verbatim>\<open>merge_vad\<close>\<close>

text \<open>
  C7 fails on two overlapping intervals. \<^verbatim>\<open>merge_vad([(0, 5), (3, 8)])\<close> with no padding
  and \<^verbatim>\<open>min_duration_off = 0\<close>: the loop of lines 260 to 262 stores the region [0, 5], and
  the assignment of the region [3, 8] raises \<^verbatim>\<open>TypeError\<close>; no merged interval comes back.
  The same holds for two intervals with a gap of 0.125, whatever \<^verbatim>\<open>min_duration_off\<close> is:
  the loop does not depend on it.
\<close>

theorem merge_vad_second_interval:
  "vad_loop 0 0 0 [(0, 5), (3, 8)] [] = Inl TypeError
   \<and> vad_loop 0 0 0 [(0, 5), (41/8, 8)] [] = Inl TypeError"
  by (simp add: binarize_eval)

end
